theory Spec2Isabelle
  imports Complex_Main
begin

section \<open>Python and NumPy numerics\<close>

text \<open>
  Python floats are modelled as exact reals. The exceptions the modelled code can raise
  are values of \<open>py_error\<close>; a fallible function returns \<open>py_error + 'a\<close>.
\<close>

datatype py_error = ZeroDivisionError | KeyError | IndexError | ValueError string

text \<open>Python's \<^verbatim>\<open>int(x)\<close> on a float truncates towards zero.\<close>

definition py_int :: "real \<Rightarrow> int" where
  "py_int x = (if 0 \<le> x then \<lfloor>x\<rfloor> else \<lceil>x\<rceil>)"

text \<open>
  \<^verbatim>\<open>np.round\<close>, \<^verbatim>\<open>np.rint\<close> and Python's \<^verbatim>\<open>round\<close> round to the nearest integer,
  a tie going to the even neighbour.
\<close>

definition rint :: "real \<Rightarrow> int" where
  "rint x = (let f = \<lfloor>x\<rfloor>; d = x - of_int f in
     if d < 1 / 2 then f
     else if 1 / 2 < d then f + 1
     else if even f then f else f + 1)"

text \<open>\<^verbatim>\<open>np.round(x, decimals=1)\<close> and \<^verbatim>\<open>round(x, 1)\<close>: scale by ten, round, scale back.\<close>

definition round1 :: "real \<Rightarrow> real" where
  "round1 x = of_int (rint (x * 10)) / 10"

text \<open>\<^verbatim>\<open>np.clip(x, lo, hi)\<close>.\<close>

definition np_clip :: "'a::linorder \<Rightarrow> 'a \<Rightarrow> 'a \<Rightarrow> 'a" where
  "np_clip x lo hi = min (max x lo) hi"

section \<open>Distribution calibration\<close>




section \<open>Active days of a chronic patient\<close>

text \<open>
  \<^verbatim>\<open>generate_chronic_active_days()\<close>; \<open>draw\<close> is the value of
  \<^verbatim>\<open>lognorm.rvs(s=.5, scale=np.exp(np.log(200)))\<close>. The \<^verbatim>\<open>while True\<close> body returns
  in its first pass.
\<close>

definition generate_chronic_active_days :: "real \<Rightarrow> int" where
  "generate_chronic_active_days draw = min (py_int draw) 365"

section \<open>Attack generation\<close>

text \<open>
  The random draws behind one pooled attack, in the order the code makes them:
  the two truncated-normal draws, the exponential draw and the component choice of
  \<^verbatim>\<open>generate_max_pain_intensity\<close>, then the lognormal base duration and the beta draw
  of \<^verbatim>\<open>generate_attack_duration\<close>. The distribution parameters the code derives from
  \<open>is_chronic\<close> and \<open>is_treated\<close> (\<open>mu\<close>, \<open>scale_very_severe\<close>, the choice
  probabilities) only shape these draws.
\<close>

record attack_draw =
  mild_to_moderate :: real
  moderate_to_severe :: real
  expon_draw :: real
  choice :: nat
  base_duration :: real
  beta_draw :: real

text \<open>\<^verbatim>\<open>generate_max_pain_intensity(is_treated, size)\<close>, one element of the array.\<close>

definition generate_max_pain_intensity :: "bool \<Rightarrow> attack_draw \<Rightarrow> real" where
  "generate_max_pain_intensity is_treated d =
     (let very_severe = 10 - expon_draw d;
          intensities = (if choice d = 0 then mild_to_moderate d
                         else if choice d = 1 then moderate_to_severe d
                         else very_severe)
      in round1 (np_clip intensities 1 10))"

text \<open>
  \<^verbatim>\<open>generate_attack_duration(is_chronic, is_treated, max_intensities, size)\<close>, one
  element of the array.
\<close>

definition generate_attack_duration :: "bool \<Rightarrow> bool \<Rightarrow> real \<Rightarrow> attack_draw \<Rightarrow> int" where
  "generate_attack_duration is_chronic is_treated max_intensities d =
     (let base_durations = base_duration d;
          intensity_factor = 0.1064 * max_intensities + 0.5797;
          adjusted_durations = base_durations * intensity_factor;
          adjusted_durations' =
            (if is_treated then
               (let max_effect = 0.3;
                    intensity_normalized = (max_intensities - 1) / 9;
                    mean_effect = 1 - (max_effect * intensity_normalized);
                    treatment_effect = beta_draw d * mean_effect
                in adjusted_durations * treatment_effect)
             else adjusted_durations)
      in np_clip (rint adjusted_durations') 15 360)"

record Attack =
  total_duration :: int
  max_intensity :: real
  max_intensity_duration :: int

text \<open>One element of the pool built by \<^verbatim>\<open>Patient.pre_generate_attack_pool\<close>.\<close>

definition generate_attack :: "bool \<Rightarrow> bool \<Rightarrow> attack_draw \<Rightarrow> Attack" where
  "generate_attack is_chronic is_treated d =
     (let max_intensities = generate_max_pain_intensity is_treated d;
          total_durations = generate_attack_duration is_chronic is_treated max_intensities d;
          max_intensity_durations = rint (0.7 * of_int total_durations)
      in \<lparr>total_duration = total_durations, max_intensity = max_intensities,
          max_intensity_duration = max_intensity_durations\<rparr>)"

section \<open>Patients\<close>

text \<open>
  A patient. \<open>active_days\<close> is set for chronic patients, \<open>bout_durations\<close> for episodic
  ones; both are Python ints that are never negative (\<^verbatim>\<open>min(int(draw), 365)\<close> of a
  positive lognormal draw, \<^verbatim>\<open>max(1, int(duration * 7))\<close>), kept as naturals.
\<close>

record Patient =
  is_chronic :: bool
  is_treated :: bool
  active_days :: nat
  bout_durations :: "nat list"
  attack_pool :: "Attack list"
  pool_index :: nat
  attacks :: "Attack list"

text \<open>
  The source of randomness for attack pools: draw number \<open>i\<close> of the run is \<open>rng i\<close>, and
  the number of draws consumed so far is threaded through the functions that sample.
\<close>

type_synonym rng = "nat \<Rightarrow> attack_draw"

definition max_attacks :: "Patient \<Rightarrow> nat" where
  "max_attacks p = (if is_chronic p then active_days p * 8 else sum_list (bout_durations p) * 8)"

text \<open>\<^verbatim>\<open>Patient.pre_generate_attack_pool\<close>.\<close>

definition pre_generate_attack_pool :: "rng \<Rightarrow> nat \<times> Patient \<Rightarrow> nat \<times> Patient" where
  "pre_generate_attack_pool r s =
     (case s of (used, p) \<Rightarrow>
        (used + max_attacks p,
         p\<lparr>attack_pool := map (\<lambda>i. generate_attack (is_chronic p) (is_treated p) (r (used + i)))
                              [0..<max_attacks p],
           pool_index := 0\<rparr>))"

text \<open>
  \<^verbatim>\<open>generate_attacks_per_day(is_chronic, is_treated)\<close> as \<^verbatim>\<open>generate_day_attacks\<close> calls
  it: \<^verbatim>\<open>max_daily_ch\<close> keeps its default \<^verbatim>\<open>np.inf\<close>, so the first lognormal draw is
  accepted and the rejection loop ends after one pass.
\<close>

definition generate_attacks_per_day :: "real \<Rightarrow> nat" where
  "generate_attacks_per_day attacks_draw = nat (max 1 (rint attacks_draw))"

text \<open>
  The loop of \<^verbatim>\<open>Patient.generate_day_attacks\<close>: the first argument counts the
  iterations left, the last component of the state is \<open>daily_attacks\<close>. Reading
  \<^verbatim>\<open>self.attack_pool[self.pool_index]\<close> past the end raises \<^verbatim>\<open>IndexError\<close>.
\<close>

fun day_loop :: "rng \<Rightarrow> nat \<Rightarrow> nat \<times> Patient \<times> nat \<Rightarrow> py_error + (nat \<times> Patient \<times> nat)" where
  "day_loop r 0 s = Inr s"
| "day_loop r (Suc n) (used, p, daily_attacks) =
     (let (used', p') = (if length (attack_pool p) \<le> pool_index p
                         then pre_generate_attack_pool r (used, p) else (used, p))
      in if pool_index p' < length (attack_pool p')
         then day_loop r n
                (used',
                 p'\<lparr>attacks := attacks p' @ [attack_pool p' ! pool_index p'],
                    pool_index := pool_index p' + 1\<rparr>,
                 daily_attacks + 1)
         else Inl IndexError)"

text \<open>
  \<^verbatim>\<open>Patient.generate_day_attacks\<close>; \<open>attacks_draw\<close> is the day's lognormal draw. The
  result carries the draws consumed, the patient and the returned \<open>daily_attacks\<close>.
\<close>

definition generate_day_attacks :: "rng \<Rightarrow> real \<Rightarrow> nat \<times> Patient \<Rightarrow> py_error + (nat \<times> Patient \<times> nat)" where
  "generate_day_attacks r attacks_draw s =
     (case s of (used, p) \<Rightarrow> day_loop r (generate_attacks_per_day attacks_draw) (used, p, 0))"

text \<open>\<^verbatim>\<open>Patient.calculate_intensity_minutes\<close>: a dictionary in insertion order.\<close>

fun dict_get :: "('k \<times> 'v) list \<Rightarrow> 'k \<Rightarrow> 'v \<Rightarrow> 'v" where
  "dict_get d k dflt = (case map_of d k of None \<Rightarrow> dflt | Some v \<Rightarrow> v)"

fun dict_set :: "('k \<times> 'v) list \<Rightarrow> 'k \<Rightarrow> 'v \<Rightarrow> ('k \<times> 'v) list" where
  "dict_set [] k v = [(k, v)]"
| "dict_set ((k', v') # kvs) k v =
     (if k' = k then (k', v) # kvs else (k', v') # dict_set kvs k v)"

definition intensity_minutes_step :: "(real \<times> int) list \<Rightarrow> Attack \<Rightarrow> (real \<times> int) list" where
  "intensity_minutes_step intensity_minutes attack =
     (let intensity = round1 (max_intensity attack)
      in dict_set intensity_minutes intensity
           (dict_get intensity_minutes intensity 0 + max_intensity_duration attack))"

definition calculate_intensity_minutes :: "Patient \<Rightarrow> (real \<times> int) list" where
  "calculate_intensity_minutes p = foldl intensity_minutes_step [] (attacks p)"

text \<open>
  \<^verbatim>\<open>Patient.generate_year_of_attacks\<close>. \<open>day_draws\<close> supplies the lognormal draw of each
  simulated day; the state carries the pool draws consumed, the days simulated so far in
  the run, the patient and \<open>total_attacks\<close>.
\<close>

fun days_loop :: "rng \<Rightarrow> (nat \<Rightarrow> real) \<Rightarrow> nat \<Rightarrow> nat \<times> nat \<times> Patient \<times> nat
    \<Rightarrow> py_error + (nat \<times> nat \<times> Patient \<times> nat)" where
  "days_loop r day_draws 0 s = Inr s"
| "days_loop r day_draws (Suc n) (used, day, p, total_attacks) =
     (case generate_day_attacks r (day_draws day) (used, p) of
        Inl e \<Rightarrow> Inl e
      | Inr (used', p', daily_attacks) \<Rightarrow>
          days_loop r day_draws n (used', day + 1, p', total_attacks + daily_attacks))"

fun bouts_loop :: "rng \<Rightarrow> (nat \<Rightarrow> real) \<Rightarrow> nat list \<Rightarrow> nat \<times> nat \<times> Patient \<times> nat
    \<Rightarrow> py_error + (nat \<times> nat \<times> Patient \<times> nat)" where
  "bouts_loop r day_draws [] s = Inr s"
| "bouts_loop r day_draws (duration # durations) s =
     (case days_loop r day_draws duration s of
        Inl e \<Rightarrow> Inl e
      | Inr s' \<Rightarrow> bouts_loop r day_draws durations s')"

definition generate_year_of_attacks :: "rng \<Rightarrow> (nat \<Rightarrow> real) \<Rightarrow> nat \<times> nat \<times> Patient
    \<Rightarrow> py_error + (nat \<times> nat \<times> Patient \<times> nat)" where
  "generate_year_of_attacks r day_draws s =
     (case s of (used, day, p) \<Rightarrow>
        (let p0 = p\<lparr>attacks := []\<rparr>
         in if is_chronic p0
            then days_loop r day_draws (min 365 (active_days p0)) (used, day, p0, 0)
            else bouts_loop r day_draws (bout_durations p0) (used, day, p0, 0)))"

section \<open>Aggregation per group\<close>

text \<open>\<^verbatim>\<open>np.arange(start, stop, step)\<close> and the intensity axis \<^verbatim>\<open>np.arange(0, 10.1, 0.1)\<close>.\<close>

definition np_arange :: "real \<Rightarrow> real \<Rightarrow> real \<Rightarrow> real list" where
  "np_arange start stop step =
     map (\<lambda>i. start + of_nat i * step) [0..<nat \<lceil>(stop - start) / step\<rceil>]"

definition intensities :: "real list" where
  "intensities = np_arange 0 10.1 0.1"

text \<open>A loop whose body can raise stops at the first exception.\<close>

fun fold_err :: "('s \<Rightarrow> 'a \<Rightarrow> py_error + 's) \<Rightarrow> 'a list \<Rightarrow> 's \<Rightarrow> py_error + 's" where
  "fold_err f [] s = Inr s"
| "fold_err f (x # xs) s = (case f s x of Inl e \<Rightarrow> Inl e | Inr s' \<Rightarrow> fold_err f xs s')"

text \<open>A list comprehension whose elements can raise: evaluated left to right.\<close>

fun comprehension :: "('a \<Rightarrow> py_error + 'b) \<Rightarrow> 'a list \<Rightarrow> py_error + 'b list" where
  "comprehension f [] = Inr []"
| "comprehension f (x # xs) =
     (case f x of
        Inl e \<Rightarrow> Inl e
      | Inr y \<Rightarrow> (case comprehension f xs of Inl e \<Rightarrow> Inl e | Inr ys \<Rightarrow> Inr (y # ys)))"

text \<open>
  The body of the loop over \<^verbatim>\<open>patient_intensity_minutes.items()\<close>: the state is
  \<open>(total_intensity_minutes, intensity_minutes_list)\<close>. Subscripting
  \<^verbatim>\<open>intensity_minutes_list\<close> with a key it does not hold raises \<^verbatim>\<open>KeyError\<close>.
\<close>

type_synonym minutes_state = "(real \<times> int) list \<times> (real \<times> int list) list"

definition add_minutes :: "minutes_state \<Rightarrow> real \<times> int \<Rightarrow> py_error + minutes_state" where
  "add_minutes s item =
     (case s of (total_intensity_minutes, intensity_minutes_list) \<Rightarrow>
      case item of (intensity, minutes) \<Rightarrow>
        (let rounded_intensity = round1 intensity;
             total' = dict_set total_intensity_minutes rounded_intensity
                        (dict_get total_intensity_minutes rounded_intensity 0 + minutes)
         in case map_of intensity_minutes_list rounded_intensity of
              None \<Rightarrow> Inl KeyError
            | Some l \<Rightarrow> Inr (total', dict_set intensity_minutes_list rounded_intensity (l @ [minutes]))))"

definition add_patient :: "minutes_state \<Rightarrow> Patient \<Rightarrow> py_error + minutes_state" where
  "add_patient s patient = fold_err add_minutes (calculate_intensity_minutes patient) s"

text \<open>
  A quotient computed by NumPy is either a finite number or one of \<open>inf\<close> and \<open>nan\<close>.
\<close>

datatype np_float = Finite real | NonFinite

text \<open>
  One element of \<^verbatim>\<open>intensity_minutes_average\<close>:
  \<^verbatim>\<open>total_intensity_minutes.get(round(i, 1), 0) / n_patients\<close>. A stored total is a
  NumPy integer (a sum of \<^verbatim>\<open>max_intensity_duration\<close> values), and dividing it by zero
  gives a non-finite float with a warning; the default \<^verbatim>\<open>0\<close> is a Python int, and
  dividing it by zero raises \<^verbatim>\<open>ZeroDivisionError\<close>.
\<close>

definition bucket_average :: "(real \<times> int) list \<Rightarrow> nat \<Rightarrow> real \<Rightarrow> py_error + np_float" where
  "bucket_average total_intensity_minutes n_patients i =
     (case map_of total_intensity_minutes (round1 i) of
        None \<Rightarrow> if n_patients = 0 then Inl ZeroDivisionError
                else Inr (Finite (0 / of_nat n_patients))
      | Some m \<Rightarrow> if n_patients = 0 then Inr NonFinite
                  else Inr (Finite (of_int m / of_nat n_patients)))"

text \<open>\<^verbatim>\<open>np.std\<close> of a non-empty list: the population standard deviation.\<close>

definition np_std :: "int list \<Rightarrow> real" where
  "np_std xs =
     (let n = of_nat (length xs);
          mean = (\<Sum>x\<leftarrow>xs. of_int x) / n
      in sqrt ((\<Sum>x\<leftarrow>xs. (of_int x - mean)\<^sup>2) / n))"

definition bucket_std :: "(real \<times> int list) list \<Rightarrow> real \<Rightarrow> py_error + real" where
  "bucket_std intensity_minutes_list i =
     (case map_of intensity_minutes_list (round1 i) of
        None \<Rightarrow> Inl KeyError
      | Some l \<Rightarrow> Inr (if l \<noteq> [] then np_std l else 0))"

text \<open>
  A group's entry of \<open>group_data\<close> without its name: the average, standard-deviation and
  total curves and \<open>n_patients\<close>.
\<close>

type_synonym group_curves = "np_float list \<times> real list \<times> int list \<times> nat"

text \<open>
  The state before a group's loop over its patients: \<open>total_intensity_minutes\<close> is
  empty and \<open>intensity_minutes_list\<close> holds an empty list for each rounded intensity of
  the axis.
\<close>

definition empty_buckets :: minutes_state where
  "empty_buckets = ([], map (\<lambda>i. (round1 i, [])) intensities)"

text \<open>
  The three list comprehensions after the loop: \<open>intensity_minutes_average\<close>,
  \<open>intensity_minutes_std\<close> and \<open>intensity_minutes_total\<close>, in this order.
\<close>

definition group_curves_of :: "minutes_state \<Rightarrow> nat \<Rightarrow> py_error + group_curves" where
  "group_curves_of s n_patients =
     (case s of (total_intensity_minutes, intensity_minutes_list) \<Rightarrow>
        (case comprehension (bucket_average total_intensity_minutes n_patients) intensities of
           Inl e \<Rightarrow> Inl e
         | Inr intensity_minutes_average \<Rightarrow>
             (case comprehension (bucket_std intensity_minutes_list) intensities of
                Inl e \<Rightarrow> Inl e
              | Inr intensity_minutes_std \<Rightarrow>
                  Inr (intensity_minutes_average, intensity_minutes_std,
                       map (\<lambda>i. dict_get total_intensity_minutes (round1 i) 0) intensities,
                       n_patients))))"

text \<open>
  The aggregation \<^verbatim>\<open>Simulation.calculate_results\<close> runs for one group, from the group's
  patients after their year has been simulated.
\<close>

definition aggregate_group :: "Patient list \<Rightarrow> nat \<Rightarrow> py_error + group_curves" where
  "aggregate_group group_patients n_patients =
     (case fold_err add_patient group_patients empty_buckets of
        Inl e \<Rightarrow> Inl e
      | Inr s \<Rightarrow> group_curves_of s n_patients)"

text \<open>The four groups and their membership conditions, in the order the code lists them.\<close>

definition group_conditions :: "(string \<times> (Patient \<Rightarrow> bool)) list" where
  "group_conditions =
     [(''Episodic Treated'', \<lambda>p. \<not> is_chronic p \<and> is_treated p),
      (''Episodic Untreated'', \<lambda>p. \<not> is_chronic p \<and> \<not> is_treated p),
      (''Chronic Treated'', \<lambda>p. is_chronic p \<and> is_treated p),
      (''Chronic Untreated'', \<lambda>p. is_chronic p \<and> \<not> is_treated p)]"

text \<open>
  \<^verbatim>\<open>Simulation.calculate_results\<close>, up to \<open>group_data\<close>: \<open>n_patients\<close> is the number
  of patients found in the group.
\<close>

definition calculate_results_group :: "Patient list \<Rightarrow> string \<times> (Patient \<Rightarrow> bool)
    \<Rightarrow> py_error + (string \<times> group_curves)" where
  "calculate_results_group population g =
     (case g of (group_name, condition) \<Rightarrow>
        (let group_patients = filter condition population;
             n_patients = length group_patients
         in case aggregate_group group_patients n_patients of
              Inl e \<Rightarrow> Inl e
            | Inr curves \<Rightarrow> Inr (group_name, curves)))"

definition calculate_results :: "Patient list \<Rightarrow> py_error + (string \<times> group_curves) list" where
  "calculate_results population = comprehension (calculate_results_group population) group_conditions"

text \<open>
  \<^verbatim>\<open>calculate_group_data\<close>, up to \<open>group_data\<close>: each patient of a group runs the year
  and is then added to the group's buckets, and \<open>n_patients\<close> comes with the group. The
  percentiles the function computes after a group's curves are not part of its result.
\<close>

definition simulate_and_add :: "rng \<Rightarrow> (nat \<Rightarrow> real) \<Rightarrow> nat \<times> nat \<times> minutes_state \<Rightarrow> Patient
    \<Rightarrow> py_error + (nat \<times> nat \<times> minutes_state)" where
  "simulate_and_add r day_draws s patient =
     (case s of (used, day, buckets) \<Rightarrow>
        (case generate_year_of_attacks r day_draws (used, day, patient) of
           Inl e \<Rightarrow> Inl e
         | Inr (used', day', patient', total_attacks) \<Rightarrow>
             (case add_patient buckets patient' of
                Inl e \<Rightarrow> Inl e
              | Inr buckets' \<Rightarrow> Inr (used', day', buckets'))))"

definition calculate_group_data_group :: "rng \<Rightarrow> (nat \<Rightarrow> real) \<Rightarrow> Patient list
    \<Rightarrow> nat \<times> nat \<times> (string \<times> group_curves) list \<Rightarrow> string \<times> (Patient \<Rightarrow> bool) \<times> nat
    \<Rightarrow> py_error + (nat \<times> nat \<times> (string \<times> group_curves) list)" where
  "calculate_group_data_group r day_draws population s g =
     (case s of (used, day, group_data) \<Rightarrow>
      case g of (group_name, condition, n_patients) \<Rightarrow>
        (let group_patients = filter condition population
         in case fold_err (simulate_and_add r day_draws) group_patients (used, day, empty_buckets) of
              Inl e \<Rightarrow> Inl e
            | Inr (used', day', buckets) \<Rightarrow>
                (case group_curves_of buckets n_patients of
                   Inl e \<Rightarrow> Inl e
                 | Inr curves \<Rightarrow> Inr (used', day', group_data @ [(group_name, curves)]))))"

definition calculate_group_data :: "rng \<Rightarrow> (nat \<Rightarrow> real) \<Rightarrow> Patient list
    \<Rightarrow> (string \<times> (Patient \<Rightarrow> bool) \<times> nat) list \<Rightarrow> py_error + (string \<times> group_curves) list" where
  "calculate_group_data r day_draws population groups_simulated =
     (case fold_err (calculate_group_data_group r day_draws population) groups_simulated (0, 0, []) of
        Inl e \<Rightarrow> Inl e
      | Inr (used, day, group_data) \<Rightarrow> Inr group_data)"

section \<open>Worldwide group sizes and the simulated population\<close>

text \<open>
  The configuration object, with the attributes \<^verbatim>\<open>Simulation\<close> reads from it. The class
  \<^verbatim>\<open>SimulationConfig\<close> is not among the sources; \<open>power_param\<close> is its attribute
  \<^verbatim>\<open>power\<close>.
\<close>

record SimulationConfig =
  world_population :: int
  adult_fraction :: real
  annual_prevalence_per_100k :: real
  prop_chronic :: real
  prop_treated :: real
  prop_episodic :: real
  prop_untreated :: real
  percent_of_patients_to_simulate :: real
  transformation_method :: string
  power_param :: real
  max_value :: real

text \<open>
  Modelled from the spec: the class \<^verbatim>\<open>SimulationConfig\<close>, which sets the attributes
  \<open>prop_episodic\<close> and \<open>prop_untreated\<close>, is missing from the sources. The spec lists
  the configuration as "\<open>prop_chronic\<close>, \<open>prop_treated\<close> (0--1, complements derived)".
\<close>

definition complements_derived :: "SimulationConfig \<Rightarrow> bool" where
  "complements_derived config =
     (prop_episodic config = 1 - prop_chronic config \<and>
      prop_untreated config = 1 - prop_treated config)"

text \<open>
  \<^verbatim>\<open>Simulation.calculate_ch_groups\<close> sets \<open>total_ch_sufferers\<close> and \<open>ch_groups\<close>. Its
  four local variables \<open>prop_chronic\<close>, \<open>prop_treated\<close>, \<open>prop_episodic\<close> and
  \<open>prop_untreated\<close> are assigned and never read: the dictionary is built from the
  attributes of the configuration.
\<close>

definition total_ch_sufferers :: "SimulationConfig \<Rightarrow> real" where
  "total_ch_sufferers config =
     (let annual_prevalence = annual_prevalence_per_100k config / 100000
      in of_int (world_population config) * adult_fraction config * annual_prevalence)"

definition calculate_ch_groups :: "SimulationConfig \<Rightarrow> (string \<times> int) list" where
  "calculate_ch_groups config =
     [(''Episodic Treated'',
         py_int (total_ch_sufferers config * prop_episodic config * prop_treated config)),
      (''Episodic Untreated'',
         py_int (total_ch_sufferers config * prop_episodic config * prop_untreated config)),
      (''Chronic Treated'',
         py_int (total_ch_sufferers config * prop_chronic config * prop_treated config)),
      (''Chronic Untreated'',
         py_int (total_ch_sufferers config * prop_chronic config * prop_untreated config))]"

text \<open>\<^verbatim>\<open>Simulation.get_total_ch_sufferers\<close>.\<close>

definition get_total_ch_sufferers :: "SimulationConfig \<Rightarrow> int" where
  "get_total_ch_sufferers config = py_int (total_ch_sufferers config)"

text \<open>Python's \<^verbatim>\<open>needle in haystack\<close> on strings.\<close>

fun py_in :: "string \<Rightarrow> string \<Rightarrow> bool" where
  "py_in needle [] = (needle = [])"
| "py_in needle (c # cs) = (take (length needle) (c # cs) = needle \<or> py_in needle cs)"

text \<open>
  \<^verbatim>\<open>Simulation.generate_population\<close>: the arguments \<open>(is_chronic, is_treated)\<close> of the
  \<^verbatim>\<open>Patient\<close> objects it constructs, in order. \<^verbatim>\<open>range(n_patients)\<close> is empty for a
  negative \<open>n_patients\<close>.
\<close>

definition generate_population_group :: "SimulationConfig \<Rightarrow> string \<times> int \<Rightarrow> (bool \<times> bool) list" where
  "generate_population_group config g =
     (case g of (group_name, group_total) \<Rightarrow>
        (let fraction = percent_of_patients_to_simulate config / 100;
             n_patients = py_int (of_int group_total * fraction)
         in replicate (nat n_patients) (py_in ''Chronic'' group_name, py_in ''Treated'' group_name)))"

definition generate_population :: "SimulationConfig \<Rightarrow> (bool \<times> bool) list" where
  "generate_population config =
     concat (map (generate_population_group config) (calculate_ch_groups config))"

text \<open>
  The group sizes computed in \<^verbatim>\<open>main\<close> from the values of its widgets: the prevalence
  per 100,000, the two percentage sliders and the percentage of patients to simulate.
\<close>

definition main_total_ch_sufferers :: "real \<Rightarrow> real" where
  "main_total_ch_sufferers annual_prevalence_per_100k_input =
     (let annual_prevalence = annual_prevalence_per_100k_input / 100000;
          world_population_const = 8200000000;
          adult_fraction_const = 0.72
      in world_population_const * adult_fraction_const * annual_prevalence)"

definition main_ch_groups :: "real \<Rightarrow> real \<Rightarrow> real \<Rightarrow> (string \<times> int) list" where
  "main_ch_groups annual_prevalence_per_100k_input chronic_slider treated_slider =
     (let total_v = main_total_ch_sufferers annual_prevalence_per_100k_input;
          prop_chronic_v = chronic_slider / 100;
          prop_treated_v = treated_slider / 100;
          prop_episodic_v = 1 - prop_chronic_v;
          prop_untreated_v = 1 - prop_treated_v
      in [(''Episodic Treated'', py_int (total_v * prop_episodic_v * prop_treated_v)),
          (''Episodic Untreated'', py_int (total_v * prop_episodic_v * prop_untreated_v)),
          (''Chronic Treated'', py_int (total_v * prop_chronic_v * prop_treated_v)),
          (''Chronic Untreated'', py_int (total_v * prop_chronic_v * prop_untreated_v))])"

text \<open>\<^verbatim>\<open>n_episodic_treated\<close> and its three siblings in \<^verbatim>\<open>main\<close>.\<close>

definition main_simulated_counts :: "(string \<times> int) list \<Rightarrow> real \<Rightarrow> (string \<times> int) list" where
  "main_simulated_counts ch_groups percent_input =
     (let fraction_of_patients_to_simulate = percent_input / 100
      in map (\<lambda>(group_name, group_total).
             (group_name, py_int (of_int group_total * fraction_of_patients_to_simulate)))
           ch_groups)"

section \<open>Intensity transformations\<close>

text \<open>
  \<^verbatim>\<open>x ** p\<close> on floats, for the non-negative bases the transformations raise to a power.
\<close>

definition np_power :: "real \<Rightarrow> real \<Rightarrow> real" where
  "np_power x p = (if p = 0 then 1 else x powr p)"

definition exp_func :: "real \<Rightarrow> real \<Rightarrow> real \<Rightarrow> real \<Rightarrow> real" where
  "exp_func x A B C = A * exp (B * x) + C"

text \<open>
  \<^verbatim>\<open>transform_intensity(intensities, method, power, max_value)\<close>. SciPy's
  \<^verbatim>\<open>curve_fit\<close> is a parameter: \<open>curve_fit max_value\<close> is the result of fitting
  \<open>exp_func\<close> to the control points \<open>(0, 0)\<close>, \<open>(7.42, max_value / 2)\<close>,
  \<open>(10, max_value)\<close> from \<open>p0 = (max_value / 10, 0.5, 0)\<close>, or \<open>None\<close> when the fit
  raises \<^verbatim>\<open>RuntimeError\<close>.
\<close>

definition transform_intensity :: "(real \<Rightarrow> (real \<times> real \<times> real) option) \<Rightarrow> real list \<Rightarrow> string
    \<Rightarrow> real \<Rightarrow> real \<Rightarrow> py_error + real list" where
  "transform_intensity curve_fit xs method pw max_v =
     (if max_v \<le> 0 then Inl (ValueError ''max_value must be positive'')
      else if method = ''linear'' then Inr (map (\<lambda>x. x * (max_v / 10)) xs)
      else if method = ''power'' then
        Inr (map (\<lambda>x. np_power x pw * (max_v / np_power 10 pw)) xs)
      else if method = ''power_scaled'' then
        Inr (map (\<lambda>x. np_power (x / 10) pw * max_v) xs)
      else if method = ''custom_exp'' then
        (case curve_fit max_v of
           None \<Rightarrow> Inr (map (\<lambda>x. x * (max_v / 10)) xs)
         | Some (A, B, C) \<Rightarrow> Inr (map (\<lambda>x. exp_func x A B C) xs))
      else if method = ''piecewise_linear'' then
        (let breakpoint = 8;
             lower_slope = (max_v / 2) / breakpoint;
             upper_slope = (max_v / 2) / (10 - breakpoint)
         in Inr (map (\<lambda>x. if x \<le> breakpoint then lower_slope * x
                          else (max_v / 2) + upper_slope * (x - breakpoint)) xs))
      else if method = ''log'' then
        Inr (map (\<lambda>x. (np_power 10 (x / 2.5) - 1) * (max_v / (np_power 10 (10 / 2.5) - 1))) xs)
      else Inl (ValueError ''Invalid method. Choose 'linear', 'power', 'power_scaled', 'custom_exp', 'piecewise_linear', or 'log'.''))"

text \<open>The six method names \<^verbatim>\<open>transform_intensity\<close> supports.\<close>

definition supported_methods :: "string list" where
  "supported_methods =
     [''linear'', ''power'', ''power_scaled'', ''custom_exp'', ''piecewise_linear'', ''log'']"

section \<open>Invariants and sample inputs\<close>

text \<open>Two patient states with the same profile: only the pool, the cursor and the attacks differ.\<close>

definition same_profile :: "Patient \<Rightarrow> Patient \<Rightarrow> bool" where
  "same_profile q p = (is_chronic q = is_chronic p \<and> is_treated q = is_treated p \<and>
     active_days q = active_days p \<and> bout_durations q = bout_durations p)"

text \<open>
  A sample draw, and a treated chronic patient with one active day whose pool of eight
  attacks is used up.
\<close>

definition example_draw :: attack_draw where
  "example_draw = \<lparr>mild_to_moderate = 4.26, moderate_to_severe = 7.5, expon_draw = 0.3,
     choice = 0, base_duration = 60, beta_draw = 0.7\<rparr>"

definition example_patient :: Patient where
  "example_patient = \<lparr>is_chronic = True, is_treated = True, active_days = 1,
     bout_durations = [],
     attack_pool = replicate 8 (generate_attack True True example_draw),
     pool_index = 8, attacks = []\<rparr>"


text \<open>A fit that meets the two end points: \<open>A = max_value\<close>, \<open>B = ln 2 / 10\<close>, \<open>C = - max_value\<close>.\<close>

definition example_fit :: "real \<Rightarrow> (real \<times> real \<times> real) option" where
  "example_fit max_v = Some (max_v, ln 2 / 10, - max_v)"

text \<open>The configuration of the end-to-end scenario.\<close>

definition example_config :: SimulationConfig where
  "example_config = \<lparr>world_population = 8200000000, adult_fraction = 0.72,
     annual_prevalence_per_100k = 53, prop_chronic = 0.2, prop_treated = 0.48,
     prop_episodic = 0.8, prop_untreated = 0.52, percent_of_patients_to_simulate = 0.02,
     transformation_method = ''linear'', power_param = 2, max_value = 100\<rparr>"

text \<open>
  A patient whose realized attacks were all drawn from generated pools: each is the
  attack \<open>generate_attack\<close> builds from some draw.
\<close>

definition pool_drawn :: "Patient \<Rightarrow> bool" where
  "pool_drawn p = (\<forall>a \<in> set (attacks p). \<exists>d. a = generate_attack (is_chronic p) (is_treated p) d)"

text \<open>A patient whose pool is a generated one.\<close>

definition pool_generated :: "Patient \<Rightarrow> bool" where
  "pool_generated p =
     (length (attack_pool p) = max_attacks p \<and>
      (\<forall>a \<in> set (attack_pool p). \<exists>d. a = generate_attack (is_chronic p) (is_treated p) d))"

text \<open>The sample patient after a day of two attacks.\<close>

definition example_patient_after_day :: Patient where
  "example_patient_after_day = example_patient
     \<lparr>attacks := replicate 2 (generate_attack True True example_draw), pool_index := 2\<rparr>"

section \<open>Rounding\<close>

lemma rint_of_int [simp]: "rint (of_int k) = k"
  by (simp add: rint_def)

lemma rint_ge: "of_int a \<le> x \<Longrightarrow> a \<le> rint x"
proof -
  assume "of_int a \<le> x"
  then have "a \<le> \<lfloor>x\<rfloor>" by (simp add: le_floor_iff)
  then show ?thesis unfolding rint_def Let_def by auto
qed

lemma rint_le: "x \<le> of_int b \<Longrightarrow> rint x \<le> b"
proof -
  assume h: "x \<le> of_int b"
  show ?thesis
  proof (cases "x = of_int b")
    case True then show ?thesis by simp
  next
    case False
    with h have "x < of_int b" by simp
    then have "\<lfloor>x\<rfloor> < b" by (simp add: floor_less_iff)
    then show ?thesis unfolding rint_def Let_def by auto
  qed
qed

lemma round1_tenths [simp]: "round1 (of_int k / 10) = of_int k / 10"
  by (simp add: round1_def)

lemma round1_clip:
  "\<exists>k. 10 \<le> k \<and> k \<le> 100 \<and> round1 (np_clip x 1 10) = of_int k / 10"
proof -
  let ?k = "rint (np_clip x 1 10 * 10)"
  have "of_int 10 \<le> np_clip x 1 10 * 10" by (simp add: np_clip_def)
  then have lo: "10 \<le> ?k" by (rule rint_ge)
  have "np_clip x 1 10 * 10 \<le> of_int 100" by (simp add: np_clip_def)
  then have hi: "?k \<le> 100" by (rule rint_le)
  show ?thesis using lo hi unfolding round1_def by blast
qed

lemma generate_max_pain_intensity_tenths:
  "\<exists>k. 10 \<le> k \<and> k \<le> 100 \<and> generate_max_pain_intensity t d = of_int k / 10"
  unfolding generate_max_pain_intensity_def Let_def by (rule round1_clip)


section \<open>Active days of chronic patients\<close>

text \<open>
  Claim C7, as the code has it: \<open>generate_chronic_active_days\<close> returns the lognormal draw
  truncated towards zero by \<^verbatim>\<open>int\<close>, capped at 365, so it never exceeds 365. The draw
  is not rounded to the nearest integer.
\<close>

theorem generate_chronic_active_days_truncates:
  "generate_chronic_active_days draw = min 365 (py_int draw) \<and>
   generate_chronic_active_days draw \<le> 365"
  by (simp add: generate_chronic_active_days_def min.commute)

text \<open>
  A draw of 200.7 gives 200 active days, where rounding to the nearest integer gives 201.
\<close>

theorem generate_chronic_active_days_round_counterexample:
  "generate_chronic_active_days (2007 / 10) \<noteq> min 365 (rint (2007 / 10))"
  by (simp add: generate_chronic_active_days_def py_int_def rint_def Let_def)

section \<open>Moment matching\<close>







section \<open>The attack pool\<close>

lemma generate_attack_fields:
  "total_duration (generate_attack c t d) =
     generate_attack_duration c t (generate_max_pain_intensity t d) d"
  "max_intensity (generate_attack c t d) = generate_max_pain_intensity t d"
  "max_intensity_duration (generate_attack c t d) =
     rint (0.7 * of_int (total_duration (generate_attack c t d)))"
  by (simp_all add: generate_attack_def Let_def)

lemma pool_set:
  "set (attack_pool (snd (pre_generate_attack_pool r (used, p)))) =
     (\<lambda>i. generate_attack (is_chronic p) (is_treated p) (r (used + i))) ` {0..<max_attacks p}"
  by (simp add: pre_generate_attack_pool_def)


text \<open>The sample draw gives an attack of 39 minutes at intensity 4.3.\<close>

lemma example_intensity: "generate_max_pain_intensity True example_draw = 43 / 10"
  by (simp add: generate_max_pain_intensity_def example_draw_def np_clip_def round1_def rint_def)

lemma example_duration: "generate_attack_duration True True (43 / 10) example_draw = 39"
  by (simp add: generate_attack_duration_def example_draw_def np_clip_def rint_def)

lemma example_attack:
  "generate_attack True True example_draw =
     \<lparr>total_duration = 39, max_intensity = 43 / 10, max_intensity_duration = 27\<rparr>"
  by (simp add: generate_attack_def example_intensity example_duration rint_def)


section \<open>Drawing a day's attacks from the pool\<close>

lemma pre_generate_fields:
  "fst (pre_generate_attack_pool r (used, p)) = used + max_attacks p"
  "length (attack_pool (snd (pre_generate_attack_pool r (used, p)))) = max_attacks p"
  "pool_index (snd (pre_generate_attack_pool r (used, p))) = 0"
  "attacks (snd (pre_generate_attack_pool r (used, p))) = attacks p"
  "is_chronic (snd (pre_generate_attack_pool r (used, p))) = is_chronic p"
  "is_treated (snd (pre_generate_attack_pool r (used, p))) = is_treated p"
  "active_days (snd (pre_generate_attack_pool r (used, p))) = active_days p"
  "bout_durations (snd (pre_generate_attack_pool r (used, p))) = bout_durations p"
  by (simp_all add: pre_generate_attack_pool_def)

lemma max_attacks_cong:
  "is_chronic q = is_chronic p \<Longrightarrow> active_days q = active_days p \<Longrightarrow>
   bout_durations q = bout_durations p \<Longrightarrow> max_attacks q = max_attacks p"
  by (simp add: max_attacks_def)

lemma day_loop_ok:
  "length (attack_pool p) = max_attacks p \<Longrightarrow> 0 < max_attacks p \<Longrightarrow>
   \<exists>used' p'. day_loop r n (used, p, k) = Inr (used', p', k + n) \<and>
     same_profile p' p \<and>
     length (attack_pool p') = max_attacks p \<and>
     length (attacks p') = length (attacks p) + n \<and>
     take (length (attacks p)) (attacks p') = attacks p \<and>
     (0 < n \<longrightarrow> 0 < pool_index p' \<and> pool_index p' \<le> length (attack_pool p'))"
proof (induction n arbitrary: used p k)
  case 0
  then show ?case by (simp add: same_profile_def)
next
  case (Suc n)
  define s where "s = (if length (attack_pool p) \<le> pool_index p
                         then pre_generate_attack_pool r (used, p) else (used, p))"
  define u1 where "u1 = fst s"
  define p1 where "p1 = snd s"
  have s: "s = (u1, p1)" by (simp add: u1_def p1_def)
  have prof: "same_profile p1 p"
    by (simp add: p1_def s_def same_profile_def pre_generate_fields)
  have len: "length (attack_pool p1) = max_attacks p"
    using Suc.prems by (simp add: p1_def s_def pre_generate_fields)
  have idx: "pool_index p1 < length (attack_pool p1)"
    using Suc.prems by (simp add: p1_def s_def pre_generate_fields)
  have att: "attacks p1 = attacks p"
    by (simp add: p1_def s_def pre_generate_fields)
  define p2 where "p2 = p1\<lparr>attacks := attacks p1 @ [attack_pool p1 ! pool_index p1],
                    pool_index := pool_index p1 + 1\<rparr>"
  have step: "day_loop r (Suc n) (used, p, k) = day_loop r n (u1, p2, k + 1)"
    using idx by (simp add: s_def [symmetric] s p2_def)
  have prof2: "same_profile p2 p" using prof by (simp add: p2_def same_profile_def)
  have m2: "max_attacks p2 = max_attacks p"
    using prof2 by (simp add: same_profile_def max_attacks_def)
  have len2: "length (attack_pool p2) = max_attacks p2" using len m2 by (simp add: p2_def)
  have pos2: "0 < max_attacks p2" using Suc.prems m2 by simp
  obtain used' p' where r: "day_loop r n (u1, p2, k + 1) = Inr (used', p', k + 1 + n)"
     "same_profile p' p2" "length (attack_pool p') = max_attacks p2"
     "length (attacks p') = length (attacks p2) + n"
     "take (length (attacks p2)) (attacks p') = attacks p2"
     "0 < n \<longrightarrow> 0 < pool_index p' \<and> pool_index p' \<le> length (attack_pool p')"
    using Suc.IH [OF len2 pos2, of u1 "k + 1"] by blast
  have a2: "attacks p2 = attacks p @ [attack_pool p1 ! pool_index p1]"
    by (simp add: p2_def att)
  have tk: "take (length (attacks p)) (attacks p') = attacks p"
  proof -
    have "take (length (attacks p)) (attacks p') =
          take (length (attacks p)) (take (length (attacks p2)) (attacks p'))"
      by (simp add: a2 min_def)
    also have "\<dots> = attacks p" unfolding r(5) by (simp add: a2)
    finally show ?thesis .
  qed
  have idx': "0 < pool_index p' \<and> pool_index p' \<le> length (attack_pool p')"
  proof (cases n)
    case 0
    then have "p' = p2" using r(1) by simp
    then show ?thesis using idx by (simp add: p2_def)
  next
    case (Suc m)
    then show ?thesis using r(6) by simp
  qed
  have "same_profile p' p" using r(2) prof2 by (simp add: same_profile_def)
  then show ?case
    unfolding step using r(1,3,4) tk idx' m2 a2 by simp
qed


lemma generate_day_attacks_ok:
  assumes "length (attack_pool p) = max_attacks p" and "0 < max_attacks p"
  shows "\<exists>used' p'. generate_day_attacks r draw (used, p) =
             Inr (used', p', generate_attacks_per_day draw) \<and>
     same_profile p' p \<and>
     length (attack_pool p') = max_attacks p \<and>
     length (attacks p') = length (attacks p) + generate_attacks_per_day draw \<and>
     take (length (attacks p)) (attacks p') = attacks p \<and>
     pool_index p' \<le> length (attack_pool p')"
proof -
  have pos: "0 < generate_attacks_per_day draw"
    by (simp add: generate_attacks_per_day_def)
  show ?thesis
    using day_loop_ok [OF assms, of r "generate_attacks_per_day draw" used 0] pos
    by (auto simp: generate_day_attacks_def)
qed

lemma same_profile_max_attacks: "same_profile q p \<Longrightarrow> max_attacks q = max_attacks p"
  by (simp add: same_profile_def max_attacks_def)

lemma same_profile_trans: "same_profile a b \<Longrightarrow> same_profile b c \<Longrightarrow> same_profile a c"
  by (simp add: same_profile_def)

lemma sum_lessThan_add:
  "(\<Sum>i<a + b. g i) = (\<Sum>i<a. g i) + (\<Sum>i<b. g (a + i))" for g :: "nat \<Rightarrow> nat"
  by (induction b) (simp_all add: add.assoc)

lemma days_loop_ok:
  "length (attack_pool p) = max_attacks p \<Longrightarrow> (0 < n \<longrightarrow> 0 < max_attacks p) \<Longrightarrow>
   \<exists>used' p'. days_loop r dd n (used, day, p, tot) =
       Inr (used', day + n, p', tot + (\<Sum>i<n. generate_attacks_per_day (dd (day + i)))) \<and>
     same_profile p' p \<and>
     length (attack_pool p') = max_attacks p \<and>
     length (attacks p') =
       length (attacks p) + (\<Sum>i<n. generate_attacks_per_day (dd (day + i)))"
proof (induction n arbitrary: used day p tot)
  case 0
  then show ?case by (simp add: same_profile_def)
next
  case (Suc n)
  have pos: "0 < max_attacks p" using Suc.prems by simp
  obtain u1 p1 where d: "generate_day_attacks r (dd day) (used, p) =
             Inr (u1, p1, generate_attacks_per_day (dd day))"
     "same_profile p1 p" "length (attack_pool p1) = max_attacks p"
     "length (attacks p1) = length (attacks p) + generate_attacks_per_day (dd day)"
    using generate_day_attacks_ok [OF Suc.prems(1) pos, of r "dd day" used] by blast
  have m1: "max_attacks p1 = max_attacks p" using d(2) by (rule same_profile_max_attacks)
  have len1: "length (attack_pool p1) = max_attacks p1" using d(3) m1 by simp
  have pos1: "0 < n \<longrightarrow> 0 < max_attacks p1" using pos m1 by simp
  obtain used' p' where r: "days_loop r dd n (u1, day + 1, p1, tot + generate_attacks_per_day (dd day)) =
       Inr (used', day + 1 + n, p', tot + generate_attacks_per_day (dd day)
             + (\<Sum>i<n. generate_attacks_per_day (dd (day + 1 + i))))"
     "same_profile p' p1" "length (attack_pool p') = max_attacks p1"
     "length (attacks p') =
       length (attacks p1) + (\<Sum>i<n. generate_attacks_per_day (dd (day + 1 + i)))"
    using Suc.IH [OF len1 pos1, of u1 "day + 1" "tot + generate_attacks_per_day (dd day)"] by blast
  have sm: "(\<Sum>i<Suc n. generate_attacks_per_day (dd (day + i))) =
      generate_attacks_per_day (dd day) + (\<Sum>i<n. generate_attacks_per_day (dd (day + 1 + i)))"
    using sum_lessThan_add [where a = 1 and b = n and g = "\<lambda>i. generate_attacks_per_day (dd (day + i))"]
    by (simp add: add.assoc)
  have step: "days_loop r dd (Suc n) (used, day, p, tot) =
     days_loop r dd n (u1, day + 1, p1, tot + generate_attacks_per_day (dd day))"
    by (simp add: d(1))
  have "same_profile p' p" using r(2) d(2) by (rule same_profile_trans)
  then show ?case unfolding step sm using r(1,3,4) d(4) m1 by (simp add: add.assoc)
qed

lemma bouts_loop_ok:
  "length (attack_pool p) = max_attacks p \<Longrightarrow> (0 < sum_list ds \<longrightarrow> 0 < max_attacks p) \<Longrightarrow>
   \<exists>used' p' tot'. bouts_loop r dd ds (used, day, p, tot) =
       Inr (used', day + sum_list ds, p', tot') \<and>
     same_profile p' p \<and>
     length (attack_pool p') = max_attacks p \<and>
     tot' = tot + (\<Sum>i<sum_list ds. generate_attacks_per_day (dd (day + i))) \<and>
     length (attacks p') =
       length (attacks p) + (\<Sum>i<sum_list ds. generate_attacks_per_day (dd (day + i)))"
proof (induction ds arbitrary: used day p tot)
  case Nil
  then show ?case by (simp add: same_profile_def)
next
  case (Cons d ds)
  let ?f = "\<lambda>i. generate_attacks_per_day (dd i)"
  have pos: "0 < d \<longrightarrow> 0 < max_attacks p" using Cons.prems by simp
  obtain u1 p1 where a: "days_loop r dd d (used, day, p, tot) =
       Inr (u1, day + d, p1, tot + (\<Sum>i<d. ?f (day + i)))"
     "same_profile p1 p" "length (attack_pool p1) = max_attacks p"
     "length (attacks p1) = length (attacks p) + (\<Sum>i<d. ?f (day + i))"
    using days_loop_ok [OF Cons.prems(1) pos, of r dd used day tot] by blast
  have m1: "max_attacks p1 = max_attacks p" using a(2) by (rule same_profile_max_attacks)
  have len1: "length (attack_pool p1) = max_attacks p1" using a(3) m1 by simp
  have pos1: "0 < sum_list ds \<longrightarrow> 0 < max_attacks p1" using Cons.prems m1 by simp
  obtain used' p' tot' where b: "bouts_loop r dd ds (u1, day + d, p1, tot + (\<Sum>i<d. ?f (day + i))) =
       Inr (used', day + d + sum_list ds, p', tot')"
     "same_profile p' p1" "length (attack_pool p') = max_attacks p1"
     "tot' = tot + (\<Sum>i<d. ?f (day + i)) + (\<Sum>i<sum_list ds. ?f (day + d + i))"
     "length (attacks p') = length (attacks p1) + (\<Sum>i<sum_list ds. ?f (day + d + i))"
    using Cons.IH [OF len1 pos1, of u1 "day + d" "tot + (\<Sum>i<d. ?f (day + i))"] by blast
  have split: "(\<Sum>i<d + sum_list ds. ?f (day + i)) =
      (\<Sum>i<d. ?f (day + i)) + (\<Sum>i<sum_list ds. ?f (day + d + i))"
    using sum_lessThan_add [where a = d and b = "sum_list ds" and g = "\<lambda>i. ?f (day + i)"]
    by (simp add: add.assoc)
  have step: "bouts_loop r dd (d # ds) (used, day, p, tot) =
     bouts_loop r dd ds (u1, day + d, p1, tot + (\<Sum>i<d. ?f (day + i)))"
    by (simp add: a(1))
  have "same_profile p' p" using b(2) a(2) by (rule same_profile_trans)
  then show ?case unfolding step using b(1,3,4,5) a(4) m1 split by (simp add: add.assoc)
qed


lemma generate_year_of_attacks_ok:
  assumes "length (attack_pool p) = max_attacks p"
  shows "\<exists>used' day' p'. generate_year_of_attacks r dd (used, day, p) =
             Inr (used', day', p', length (attacks p')) \<and>
           same_profile p' p \<and> length (attack_pool p') = max_attacks p"
proof -
  define q where "q = p\<lparr>attacks := []\<rparr>"
  have prof: "same_profile q p" by (simp add: q_def same_profile_def)
  have m: "max_attacks q = max_attacks p" using prof by (rule same_profile_max_attacks)
  have len: "length (attack_pool q) = max_attacks q" using assms m by (simp add: q_def)
  have att: "attacks q = []" by (simp add: q_def)
  have unf: "generate_year_of_attacks r dd (used, day, p) =
      (if is_chronic q
       then days_loop r dd (min 365 (active_days q)) (used, day, q, 0)
       else bouts_loop r dd (bout_durations q) (used, day, q, 0))"
    by (simp add: generate_year_of_attacks_def q_def Let_def)
  show ?thesis
  proof (cases "is_chronic q")
    case True
    have pos: "0 < min 365 (active_days q) \<longrightarrow> 0 < max_attacks q"
      using True by (simp add: max_attacks_def)
    obtain used' p' where a: "days_loop r dd (min 365 (active_days q)) (used, day, q, 0) =
       Inr (used', day + min 365 (active_days q), p',
            0 + (\<Sum>i<min 365 (active_days q). generate_attacks_per_day (dd (day + i))))"
      "same_profile p' q" "length (attack_pool p') = max_attacks q"
      "length (attacks p') =
         length (attacks q) + (\<Sum>i<min 365 (active_days q). generate_attacks_per_day (dd (day + i)))"
      using days_loop_ok [OF len pos, of r dd used day 0] by blast
    have "generate_year_of_attacks r dd (used, day, p) =
       Inr (used', day + min 365 (active_days q), p', length (attacks p'))"
      using True a(1) a(4) att by (simp add: unf)
    moreover have "same_profile p' p" using a(2) prof by (rule same_profile_trans)
    ultimately show ?thesis using a(3) m by auto
  next
    case False
    have pos: "0 < sum_list (bout_durations q) \<longrightarrow> 0 < max_attacks q"
      using False by (simp add: max_attacks_def)
    obtain used' p' tot' where a: "bouts_loop r dd (bout_durations q) (used, day, q, 0) =
       Inr (used', day + sum_list (bout_durations q), p', tot')"
      "same_profile p' q" "length (attack_pool p') = max_attacks q"
      "tot' = 0 + (\<Sum>i<sum_list (bout_durations q). generate_attacks_per_day (dd (day + i)))"
      "length (attacks p') =
         length (attacks q) + (\<Sum>i<sum_list (bout_durations q). generate_attacks_per_day (dd (day + i)))"
      using bouts_loop_ok [OF len pos, of r dd used day 0] by blast
    have "generate_year_of_attacks r dd (used, day, p) =
       Inr (used', day + sum_list (bout_durations q), p', length (attacks p'))"
      using False a(1) a(4) a(5) att by (simp add: unf)
    moreover have "same_profile p' p" using a(2) prof by (rule same_profile_trans)
    ultimately show ?thesis using a(3) m by auto
  qed
qed




section \<open>Intensity transformations\<close>

text \<open>
  Claim C9: \<open>transform_intensity\<close> returns the invalid-argument error for every
  \<open>max_value\<close> that is not positive, whatever the method and before any curve value is
  computed, and returns an invalid-argument error for every method name outside the six
  supported ones.
\<close>

theorem transform_intensity_fails_fast:
  "(max_v \<le> 0 \<longrightarrow>
      transform_intensity curve_fit xs method pw max_v =
        Inl (ValueError ''max_value must be positive'')) \<and>
   (method \<notin> set supported_methods \<longrightarrow>
      (\<exists>msg. transform_intensity curve_fit xs method pw max_v = Inl (ValueError msg)))"
proof (intro conjI impI)
  assume "max_v \<le> 0"
  then show "transform_intensity curve_fit xs method pw max_v =
        Inl (ValueError ''max_value must be positive'')"
    unfolding transform_intensity_def by (rule if_P)
next
  assume "method \<notin> set supported_methods"
  then have m: "method \<noteq> ''linear''" "method \<noteq> ''power''" "method \<noteq> ''power_scaled''"
    "method \<noteq> ''custom_exp''" "method \<noteq> ''piecewise_linear''" "method \<noteq> ''log''"
    unfolding supported_methods_def by (simp_all only: set_simps insert_iff de_Morgan_disj empty_iff not_False_eq_True simp_thms)
  show "\<exists>msg. transform_intensity curve_fit xs method pw max_v = Inl (ValueError msg)"
    unfolding transform_intensity_def
    by (simp only: m if_False split: if_split) blast
qed

theorem transform_intensity_fails_fast_witness:
  "transform_intensity example_fit [0, 5, 10] ''linear'' 2 0 =
     Inl (ValueError ''max_value must be positive'') \<and>
   ''cubic'' \<notin> set supported_methods \<and>
   (\<exists>msg. transform_intensity example_fit [0, 5, 10] ''cubic'' 2 100 = Inl (ValueError msg))"
proof -
  have a: "(0::real) \<le> 0" by simp
  have b: "''cubic'' \<notin> set supported_methods" by (simp add: supported_methods_def)
  show ?thesis
    using a b transform_intensity_fails_fast [of 0 example_fit "[0, 5, 10]" "''linear''" 2]
      transform_intensity_fails_fast [of 100 example_fit "[0, 5, 10]" "''cubic''" 2]
    by simp
qed












section \<open>Worldwide group sizes\<close>

lemma calculate_ch_groups_cells:
  assumes "complements_derived config"
  shows "calculate_ch_groups config =
     [(''Episodic Treated'',
         py_int (total_ch_sufferers config * (1 - prop_chronic config) * prop_treated config)),
      (''Episodic Untreated'',
         py_int (total_ch_sufferers config * (1 - prop_chronic config) * (1 - prop_treated config))),
      (''Chronic Treated'',
         py_int (total_ch_sufferers config * prop_chronic config * prop_treated config)),
      (''Chronic Untreated'',
         py_int (total_ch_sufferers config * prop_chronic config * (1 - prop_treated config)))]"
proof -
  have e: "prop_episodic config = 1 - prop_chronic config"
    and u: "prop_untreated config = 1 - prop_treated config"
    using assms by (simp_all add: complements_derived_def)
  show ?thesis unfolding calculate_ch_groups_def e u by (rule refl)
qed


lemma example_config_complements: "complements_derived example_config"
  by (simp add: complements_derived_def example_config_def)

lemma example_total: "total_ch_sufferers example_config = 3129120"
  by (simp add: total_ch_sufferers_def example_config_def)

lemma main_total: "main_total_ch_sufferers 53 = 3129120"
  by (simp add: main_total_ch_sufferers_def)

lemma py_int_floor: "0 \<le> x \<Longrightarrow> of_int n \<le> x \<Longrightarrow> x < of_int n + 1 \<Longrightarrow> py_int x = n"
  unfolding py_int_def by (simp add: floor_unique)

lemma cell_et: "py_int (3129120 * (1 - 2 / 10) * (48 / 100)) = 1201582"
  by (rule py_int_floor) simp_all

lemma cell_eu: "py_int (3129120 * (1 - 2 / 10) * (1 - 48 / 100)) = 1301713"
  by (rule py_int_floor) simp_all

lemma cell_ct: "py_int (3129120 * (2 / 10) * (48 / 100)) = 300395"
  by (rule py_int_floor) simp_all

lemma cell_cu: "py_int (3129120 * (2 / 10) * (1 - 48 / 100)) = 325428"
  by (rule py_int_floor) simp_all

lemma example_ch_groups:
  "calculate_ch_groups example_config =
     [(''Episodic Treated'', 1201582), (''Episodic Untreated'', 1301713),
      (''Chronic Treated'', 300395), (''Chronic Untreated'', 325428)]"
proof -
  have f: "prop_chronic example_config = 2 / 10" "prop_treated example_config = 48 / 100"
    "prop_episodic example_config = 1 - 2 / 10" "prop_untreated example_config = 1 - 48 / 100"
    by (simp_all add: example_config_def)
  show ?thesis
    unfolding calculate_ch_groups_def example_total f cell_et cell_eu cell_ct cell_cu
    by (rule refl)
qed



section \<open>The end-to-end scenario\<close>

lemma py_in_group_names:
  "py_in ''Chronic'' ''Episodic Treated'' = False"
  "py_in ''Treated'' ''Episodic Treated'' = True"
  "py_in ''Chronic'' ''Episodic Untreated'' = False"
  "py_in ''Treated'' ''Episodic Untreated'' = False"
  "py_in ''Chronic'' ''Chronic Treated'' = True"
  "py_in ''Treated'' ''Chronic Treated'' = True"
  "py_in ''Chronic'' ''Chronic Untreated'' = True"
  "py_in ''Treated'' ''Chronic Untreated'' = False"
  by simp_all

lemma count_et: "py_int (600791 / 2500) = 240"
  by (rule py_int_floor) simp_all

lemma count_eu: "py_int (1301713 / 5000) = 260"
  by (rule py_int_floor) simp_all

lemma count_ct: "py_int (60079 / 1000) = 60"
  by (rule py_int_floor) simp_all

lemma count_cu: "py_int (81357 / 1250) = 65"
  by (rule py_int_floor) simp_all

lemma length_filter_replicate:
  "length (filter P (replicate n x)) = (if P x then n else 0)"
  by (induction n) simp_all

lemma scenario_population:
  assumes "calculate_ch_groups config =
     [(''Episodic Treated'', 1201582), (''Episodic Untreated'', 1301713),
      (''Chronic Treated'', 300395), (''Chronic Untreated'', 325428)]"
    and "percent_of_patients_to_simulate config = 2 / 100"
  shows "generate_population config =
     replicate 240 (False, True) @ replicate 260 (False, False) @
     replicate 60 (True, True) @ replicate 65 (True, False)"
  unfolding generate_population_def assms(1)
  by (simp add: generate_population_group_def assms(2) Let_def py_in_group_names
      count_et count_eu count_ct count_cu del: py_in.simps)


text \<open>
  Claim C4, as the code has it: with a world population of 8,200,000,000, an adult
  fraction of 0.72, a prevalence of 53 per 100,000, 20% chronic and 48% treated patients
  and 0.02% of the patients simulated, \<open>get_total_ch_sufferers\<close> returns 3,129,120, and
  240 'Episodic Treated' patients are simulated, by \<open>generate_population\<close> and by
  \<open>main\<close> alike.
\<close>

theorem end_to_end_scenario:
  assumes "world_population config = 8200000000"
    and "adult_fraction config = 72 / 100"
    and "annual_prevalence_per_100k config = 53"
    and "prop_chronic config = 2 / 10"
    and "prop_treated config = 48 / 100"
    and "percent_of_patients_to_simulate config = 2 / 100"
    and "complements_derived config"
  shows "get_total_ch_sufferers config = 3129120 \<and>
    length (filter (\<lambda>p. \<not> fst p \<and> snd p) (generate_population config)) = 240 \<and>
    main_simulated_counts (main_ch_groups 53 20 48) (2 / 100) =
      [(''Episodic Treated'', 240), (''Episodic Untreated'', 260),
       (''Chronic Treated'', 60), (''Chronic Untreated'', 65)]"
proof -
  have tot: "total_ch_sufferers config = 3129120"
    by (simp add: total_ch_sufferers_def assms(1,2,3))
  have a: "get_total_ch_sufferers config = 3129120"
    unfolding get_total_ch_sufferers_def tot by (simp add: py_int_def)
  have groups: "calculate_ch_groups config =
     [(''Episodic Treated'', 1201582), (''Episodic Untreated'', 1301713),
      (''Chronic Treated'', 300395), (''Chronic Untreated'', 325428)]"
    using calculate_ch_groups_cells [OF assms(7)]
    unfolding tot assms(4,5) cell_et cell_eu cell_ct cell_cu .
  have b: "length (filter (\<lambda>p. \<not> fst p \<and> snd p) (generate_population config)) = 240"
    unfolding scenario_population [OF groups assms(6)]
    by (simp add: length_filter_replicate)
  have g: "(20::real) / 100 = 2 / 10" by simp
  have mg: "main_ch_groups 53 20 48 =
     [(''Episodic Treated'', 1201582), (''Episodic Untreated'', 1301713),
      (''Chronic Treated'', 300395), (''Chronic Untreated'', 325428)]"
    unfolding main_ch_groups_def Let_def main_total g cell_et cell_eu cell_ct cell_cu
    by (rule refl)
  have c: "main_simulated_counts (main_ch_groups 53 20 48) (2 / 100) =
      [(''Episodic Treated'', 240), (''Episodic Untreated'', 260),
       (''Chronic Treated'', 60), (''Chronic Untreated'', 65)]"
    unfolding mg by (simp add: main_simulated_counts_def count_et count_eu count_ct count_cu)
  from a b c show ?thesis by (intro conjI)
qed

theorem end_to_end_scenario_witness:
  "get_total_ch_sufferers example_config = 3129120 \<and>
   length (filter (\<lambda>p. \<not> fst p \<and> snd p) (generate_population example_config)) = 240"
proof -
  have f: "world_population example_config = 8200000000"
    "adult_fraction example_config = 72 / 100"
    "annual_prevalence_per_100k example_config = 53"
    "prop_chronic example_config = 2 / 10"
    "prop_treated example_config = 48 / 100"
    "percent_of_patients_to_simulate example_config = 2 / 100"
    by (simp_all add: example_config_def)
  from end_to_end_scenario [OF f example_config_complements]
  show ?thesis by (elim conjE) (intro conjI)
qed

text \<open>
  The total of the scenario is 3,129,120, which is 4,320 below the 3,133,440 of the claim.
\<close>

theorem total_ch_sufferers_counterexample:
  "\<not> \<bar>get_total_ch_sufferers example_config - 3133440\<bar> \<le> 1"
  unfolding get_total_ch_sufferers_def example_total by (simp add: py_int_def)

section \<open>Dictionaries\<close>

lemma map_of_dict_set:
  "map_of (dict_set d k v) k' = (if k' = k then Some v else map_of d k')"
  by (induction d k v rule: dict_set.induct) auto

lemma keys_dict_set: "fst ` set (dict_set d k v) = insert k (fst ` set d)"
  by (induction d k v rule: dict_set.induct) auto

lemma map_of_Some_iff_key: "(\<exists>v. map_of d k = Some v) \<longleftrightarrow> k \<in> fst ` set d"
  using map_of_eq_None_iff [of d k] by (cases "map_of d k") auto

section \<open>The intensity axis\<close>

lemma intensities_eq: "intensities = map (\<lambda>i. of_nat i / 10) [0..<101]"
proof -
  have "\<lceil>(101 / 10 - 0) / (1 / 10) :: real\<rceil> = 101" by simp
  then show ?thesis by (simp add: intensities_def np_arange_def)
qed

lemma round1_axis: "round1 (of_nat i / 10) = of_nat i / 10"
  using round1_tenths [of "int i"] by simp

lemma bucket_keys: "round1 ` set intensities = (\<lambda>i. of_nat i / 10) ` {0..<101}"
  unfolding intensities_eq by (simp add: image_image round1_axis del: upt_Suc)

lemma intensities_Cons: "intensities = 0 # map (\<lambda>i. of_nat i / 10) [1..<101]"
  unfolding intensities_eq by (simp add: upt_conv_Cons del: upt_Suc)

lemma tenths_in_buckets:
  assumes "0 \<le> j" and "j \<le> 100"
  shows "of_int j / 10 \<in> round1 ` set intensities"
proof -
  have "nat j \<in> {0..<101}" using assms by simp
  moreover have "of_nat (nat j) / 10 = (of_int j / 10 :: real)" using assms by simp
  ultimately show ?thesis unfolding bucket_keys by (metis (no_types, lifting) image_eqI)
qed


section \<open>Keys of the per-patient dictionary\<close>

lemma keys_foldl_step:
  "fst ` set (foldl intensity_minutes_step acc as) =
     fst ` set acc \<union> (\<lambda>a. round1 (max_intensity a)) ` set as"
proof (induction as arbitrary: acc)
  case Nil
  then show ?case by simp
next
  case (Cons a as)
  have "fst ` set (intensity_minutes_step acc a) = insert (round1 (max_intensity a)) (fst ` set acc)"
    by (simp add: intensity_minutes_step_def Let_def keys_dict_set)
  then show ?case using Cons.IH [of "intensity_minutes_step acc a"] by auto
qed

lemma keys_calculate_intensity_minutes:
  "fst ` set (calculate_intensity_minutes p) = (\<lambda>a. round1 (max_intensity a)) ` set (attacks p)"
  by (simp add: calculate_intensity_minutes_def keys_foldl_step)

lemma pool_drawn_keys:
  assumes "pool_drawn p" and "k \<in> fst ` set (calculate_intensity_minutes p)"
  shows "\<exists>j. 10 \<le> j \<and> j \<le> 100 \<and> k = of_int j / 10"
proof -
  obtain a where a: "a \<in> set (attacks p)" "k = round1 (max_intensity a)"
    using assms(2) unfolding keys_calculate_intensity_minutes by blast
  obtain d where d: "a = generate_attack (is_chronic p) (is_treated p) d"
    using assms(1) a(1) unfolding pool_drawn_def by blast
  obtain j :: int where j: "10 \<le> j" "j \<le> 100" "max_intensity a = of_int j / 10"
    using generate_max_pain_intensity_tenths [of "is_treated p" d]
    unfolding d generate_attack_fields by blast
  have "k = of_int j / 10" unfolding a(2) j(3) by (rule round1_tenths)
  then show ?thesis using j(1,2) by blast
qed

section \<open>Loops that can raise\<close>

lemma comprehension_total:
  "(\<forall>x \<in> set xs. \<exists>y. f x = Inr y) \<Longrightarrow> \<exists>ys. comprehension f xs = Inr ys"
  by (induction xs) auto

lemma comprehension_error:
  "comprehension f xs = Inl e \<Longrightarrow> \<exists>x \<in> set xs. f x = Inl e"
  by (induction xs) (auto split: sum.splits)

lemma comprehension_one_error:
  "(\<forall>x \<in> set xs. (\<exists>y. f x = Inr y) \<or> f x = Inl e) \<Longrightarrow> \<exists>x \<in> set xs. f x = Inl e \<Longrightarrow>
   comprehension f xs = Inl e"
proof (induction xs)
  case Nil
  then show ?case by simp
next
  case (Cons x xs)
  show ?case
  proof (cases "f x")
    case (Inl e')
    then have "e' = e" using Cons.prems(1) by auto
    then show ?thesis using Inl by simp
  next
    case (Inr y)
    then have "\<exists>x \<in> set xs. f x = Inl e" using Cons.prems(2) by auto
    then have "comprehension f xs = Inl e" using Cons.IH Cons.prems(1) by simp
    then show ?thesis using Inr by simp
  qed
qed

section \<open>Adding a patient's minutes to the buckets\<close>

lemma add_minutes_ok:
  assumes "round1 (fst item) \<in> fst ` set ml"
  shows "\<exists>tot' ml'. add_minutes (tot, ml) item = Inr (tot', ml') \<and>
           fst ` set ml' = fst ` set ml"
proof -
  obtain intensity minutes where item: "item = (intensity, minutes)" by (cases item)
  obtain l where l: "map_of ml (round1 intensity) = Some l"
    using assms map_of_Some_iff_key [of ml "round1 intensity"] unfolding item by auto
  have "insert (round1 intensity) (fst ` set ml) = fst ` set ml"
    using assms unfolding item by auto
  then show ?thesis
    unfolding item by (simp add: add_minutes_def Let_def l keys_dict_set)
qed

lemma fold_add_minutes_ok:
  "(\<forall>item \<in> set items. round1 (fst item) \<in> fst ` set ml) \<Longrightarrow>
   \<exists>tot' ml'. fold_err add_minutes items (tot, ml) = Inr (tot', ml') \<and>
           fst ` set ml' = fst ` set ml"
proof (induction items arbitrary: tot ml)
  case Nil
  then show ?case by simp
next
  case (Cons item items)
  obtain tot1 ml1 where s: "add_minutes (tot, ml) item = Inr (tot1, ml1)"
      "fst ` set ml1 = fst ` set ml"
    using add_minutes_ok [of item ml tot] Cons.prems by auto
  have "\<forall>item \<in> set items. round1 (fst item) \<in> fst ` set ml1"
    using Cons.prems s(2) by simp
  from Cons.IH [OF this, of tot1] show ?case using s by simp
qed

lemma pool_drawn_round1_key:
  assumes "pool_drawn p" and "item \<in> set (calculate_intensity_minutes p)"
  shows "round1 (fst item) \<in> round1 ` set intensities"
proof -
  have "fst item \<in> fst ` set (calculate_intensity_minutes p)" using assms(2) by simp
  then obtain j :: int where j: "10 \<le> j" "j \<le> 100" "fst item = of_int j / 10"
    using pool_drawn_keys [OF assms(1)] by blast
  have "0 \<le> j" using j(1) by simp
  then show ?thesis unfolding j(3) round1_tenths using j(2) by (rule tenths_in_buckets)
qed

lemma fold_add_patient_ok:
  "(\<forall>p \<in> set ps. pool_drawn p) \<Longrightarrow> fst ` set ml = round1 ` set intensities \<Longrightarrow>
   \<exists>tot' ml'. fold_err add_patient ps (tot, ml) = Inr (tot', ml') \<and>
           fst ` set ml' = round1 ` set intensities"
proof (induction ps arbitrary: tot ml)
  case Nil
  then show ?case by simp
next
  case (Cons p ps)
  have "\<forall>item \<in> set (calculate_intensity_minutes p). round1 (fst item) \<in> fst ` set ml"
    using Cons.prems pool_drawn_round1_key [of p] by simp
  then obtain tot1 ml1 where s: "add_patient (tot, ml) p = Inr (tot1, ml1)"
      "fst ` set ml1 = fst ` set ml"
    using fold_add_minutes_ok [of "calculate_intensity_minutes p" ml tot]
    unfolding add_patient_def by auto
  have k: "fst ` set ml1 = round1 ` set intensities" using s(2) Cons.prems(2) by simp
  have "\<forall>p \<in> set ps. pool_drawn p" using Cons.prems(1) by simp
  from Cons.IH [OF this k, of tot1] show ?case using s(1) by simp
qed

lemma initial_bucket_keys: "fst ` set (snd empty_buckets) = round1 ` set intensities"
  by (simp add: empty_buckets_def image_image)

lemma bucket_std_ok:
  assumes "fst ` set ml = round1 ` set intensities" and "i \<in> set intensities"
  shows "\<exists>y. bucket_std ml i = Inr y"
proof -
  have "round1 i \<in> fst ` set ml" using assms by simp
  then obtain l where "map_of ml (round1 i) = Some l"
    using map_of_Some_iff_key [of ml "round1 i"] by auto
  then show ?thesis by (simp add: bucket_std_def)
qed

lemma group_curves_of_cases:
  assumes "fst ` set ml = round1 ` set intensities"
  shows "(\<exists>curves. group_curves_of (tot, ml) n = Inr curves) \<or>
         (n = 0 \<and> group_curves_of (tot, ml) n = Inl ZeroDivisionError)"
proof -
  obtain stds where st: "comprehension (bucket_std ml) intensities = Inr stds"
    using comprehension_total [of intensities "bucket_std ml"] bucket_std_ok [OF assms]
    by blast
  show ?thesis
  proof (cases "comprehension (bucket_average tot n) intensities")
    case (Inr avgs)
    then show ?thesis by (simp add: group_curves_of_def st)
  next
    case (Inl e)
    then obtain i where i: "bucket_average tot n i = Inl e"
      using comprehension_error by blast
    then have "n = 0 \<and> e = ZeroDivisionError"
      by (auto simp: bucket_average_def split: option.splits if_splits)
    then show ?thesis using Inl by (simp add: group_curves_of_def)
  qed
qed

lemma group_curves_of_empty: "group_curves_of empty_buckets 0 = Inl ZeroDivisionError"
proof -
  have "bucket_average [] 0 0 = Inl ZeroDivisionError" by (simp add: bucket_average_def)
  then have "comprehension (bucket_average [] 0) intensities = Inl ZeroDivisionError"
    unfolding intensities_Cons by simp
  then show ?thesis by (simp add: group_curves_of_def empty_buckets_def)
qed

lemma aggregate_group_cases:
  assumes "\<forall>p \<in> set ps. pool_drawn p"
  shows "(\<exists>curves. aggregate_group ps n = Inr curves) \<or>
         (n = 0 \<and> aggregate_group ps n = Inl ZeroDivisionError)"
proof -
  obtain tot ml where f:
    "fold_err add_patient ps (fst empty_buckets, snd empty_buckets) = Inr (tot, ml)"
    "fst ` set ml = round1 ` set intensities"
    using fold_add_patient_ok [OF assms initial_bucket_keys] by blast
  show ?thesis
    using group_curves_of_cases [OF f(2), of tot n] f(1) by (simp add: aggregate_group_def)
qed

lemma aggregate_group_ok:
  assumes "\<forall>p \<in> set ps. pool_drawn p" and "0 < n"
  shows "\<exists>curves. aggregate_group ps n = Inr curves"
  using aggregate_group_cases [OF assms(1), of n] assms(2) by auto

lemma aggregate_group_empty: "aggregate_group [] 0 = Inl ZeroDivisionError"
  by (simp add: aggregate_group_def group_curves_of_empty)

lemma calculate_results_group_cases:
  assumes "\<forall>p \<in> set population. pool_drawn p"
  shows "(\<exists>y. calculate_results_group population g = Inr y) \<or>
         (filter (snd g) population = [] \<and>
          calculate_results_group population g = Inl ZeroDivisionError)"
proof -
  obtain group_name condition where g: "g = (group_name, condition)" by (cases g)
  have "\<forall>p \<in> set (filter condition population). pool_drawn p" using assms by simp
  from aggregate_group_cases [OF this, of "length (filter condition population)"]
  show ?thesis unfolding g by (auto simp: calculate_results_group_def Let_def)
qed

lemma calculate_results_group_empty:
  assumes "filter condition population = []"
  shows "calculate_results_group population (group_name, condition) = Inl ZeroDivisionError"
  by (simp add: calculate_results_group_def assms aggregate_group_empty)

lemma calculate_group_data_group_empty:
  assumes "filter condition population = []"
  shows "calculate_group_data_group r dd population (used, day, gd) (group_name, condition, 0) =
     Inl ZeroDivisionError"
  by (simp add: calculate_group_data_group_def assms group_curves_of_empty)

lemma calculate_results_empty_group:
  assumes "\<forall>p \<in> set population. pool_drawn p"
    and "g \<in> set group_conditions" and "filter (snd g) population = []"
  shows "calculate_results population = Inl ZeroDivisionError"
proof -
  have "calculate_results_group population g = Inl ZeroDivisionError"
    using calculate_results_group_empty [OF assms(3), of "fst g"] by simp
  then have ex: "\<exists>x \<in> set group_conditions. calculate_results_group population x = Inl ZeroDivisionError"
    using assms(2) by blast
  have all: "\<forall>x \<in> set group_conditions. (\<exists>y. calculate_results_group population x = Inr y) \<or>
       calculate_results_group population x = Inl ZeroDivisionError"
    using calculate_results_group_cases [OF assms(1)] by blast
  show ?thesis unfolding calculate_results_def using all ex by (rule comprehension_one_error)
qed

lemma example_patient_after_day_fields:
  "is_chronic example_patient_after_day = True"
  "is_treated example_patient_after_day = True"
  "attacks example_patient_after_day = replicate 2 (generate_attack True True example_draw)"
  by (simp_all add: example_patient_after_day_def example_patient_def)

lemma example_pool_drawn: "pool_drawn example_patient_after_day"
  unfolding pool_drawn_def example_patient_after_day_fields by auto

lemma example_intensity_minutes:
  "calculate_intensity_minutes example_patient_after_day = [(43 / 10, 54)]"
proof -
  have r: "round1 (43 / 10) = 43 / 10" using round1_tenths [of 43] by simp
  have two: "replicate 2 x = [x, x]" for x :: Attack by (simp add: numeral_2_eq_2)
  show ?thesis
    unfolding calculate_intensity_minutes_def example_patient_after_day_fields example_attack two
    by (simp add: intensity_minutes_step_def r)
qed

text \<open>
  Claim C1, where the code misses it: a group without patients makes both aggregations
  divide the default total \<open>0\<close> by an \<open>n_patients\<close> of zero, which raises
  \<^verbatim>\<open>ZeroDivisionError\<close> at the first bucket; there is no check of \<open>n_patients\<close>. For a
  population of simulated patients, \<open>calculate_results\<close> as a whole then ends in that
  error.
\<close>

theorem empty_group_raises:
  assumes "filter condition population = []"
  shows "calculate_results_group population (group_name, condition) = Inl ZeroDivisionError \<and>
    calculate_group_data_group r dd population (used, day, gd) (group_name, condition, 0) =
      Inl ZeroDivisionError \<and>
    ((\<forall>p \<in> set population. pool_drawn p) \<and> (group_name, condition) \<in> set group_conditions \<longrightarrow>
       calculate_results population = Inl ZeroDivisionError)"
proof (intro conjI impI)
  show "calculate_results_group population (group_name, condition) = Inl ZeroDivisionError"
    using assms by (rule calculate_results_group_empty)
  show "calculate_group_data_group r dd population (used, day, gd) (group_name, condition, 0) =
      Inl ZeroDivisionError"
    using assms by (rule calculate_group_data_group_empty)
  assume a: "(\<forall>p \<in> set population. pool_drawn p) \<and> (group_name, condition) \<in> set group_conditions"
  have "filter (snd (group_name, condition)) population = []" using assms by simp
  with a show "calculate_results population = Inl ZeroDivisionError"
    using calculate_results_empty_group [of population "(group_name, condition)"] by blast
qed

theorem empty_group_raises_witness:
  "calculate_results_group [example_patient_after_day]
     (''Episodic Treated'', \<lambda>p. \<not> is_chronic p \<and> is_treated p) = Inl ZeroDivisionError \<and>
   calculate_results [example_patient_after_day] = Inl ZeroDivisionError \<and>
   calculate_results [] = Inl ZeroDivisionError"
proof -
  let ?c = "\<lambda>p. \<not> is_chronic p \<and> is_treated p"
  have e: "filter ?c [example_patient_after_day] = []"
    by (simp add: example_patient_after_day_fields)
  have e': "filter ?c [] = []" by simp
  have m: "(''Episodic Treated'', ?c) \<in> set group_conditions"
    unfolding group_conditions_def by (rule list.set_intros(1))
  have d: "\<forall>p \<in> set [example_patient_after_day]. pool_drawn p"
    using example_pool_drawn by simp
  have d': "\<forall>p \<in> set ([] :: Patient list). pool_drawn p" by simp
  show ?thesis
    using empty_group_raises [OF e, of "''Episodic Treated''" "\<lambda>i. example_draw" "\<lambda>d. 2" 0 0 "[]"]
      empty_group_raises [OF e', of "''Episodic Treated''" "\<lambda>i. example_draw" "\<lambda>d. 2" 0 0 "[]"] m d d'
    by blast
qed

text \<open>
  Claim C10: for patients whose realized attacks were drawn from generated pools, every
  key of the dictionary \<open>calculate_intensity_minutes\<close> returns is a whole number of tenths
  between 1.0 and 10.0 and is one of the 101 bucket keys, so the aggregation never raises
  \<^verbatim>\<open>KeyError\<close>, and it returns the group's curves when \<open>n_patients\<close> is positive.
\<close>

theorem intensity_keys_are_buckets:
  assumes "\<forall>p \<in> set population. pool_drawn p"
  shows "(\<forall>p \<in> set population. \<forall>k \<in> fst ` set (calculate_intensity_minutes p).
            (\<exists>j. 10 \<le> j \<and> j \<le> 100 \<and> k = of_int j / 10) \<and> k \<in> round1 ` set intensities) \<and>
         length intensities = 101 \<and>
         aggregate_group population n_patients \<noteq> Inl KeyError \<and>
         (0 < n_patients \<longrightarrow> (\<exists>curves. aggregate_group population n_patients = Inr curves)) \<and>
         calculate_results population \<noteq> Inl KeyError"
proof (intro conjI ballI impI)
  fix p k
  assume p: "p \<in> set population" and k: "k \<in> fst ` set (calculate_intensity_minutes p)"
  have d: "pool_drawn p" using assms p by blast
  obtain j :: int where j: "10 \<le> j" "j \<le> 100" "k = of_int j / 10"
    using pool_drawn_keys [OF d k] by blast
  then show "\<exists>j. 10 \<le> j \<and> j \<le> 100 \<and> k = of_int j / 10" by blast
  have "0 \<le> j" using j(1) by simp
  then show "k \<in> round1 ` set intensities" unfolding j(3) using j(2) by (rule tenths_in_buckets)
next
  show "length intensities = 101" unfolding intensities_eq by simp
next
  show "aggregate_group population n_patients \<noteq> Inl KeyError"
    using aggregate_group_cases [OF assms, of n_patients] by auto
next
  assume "0 < n_patients"
  with assms show "\<exists>curves. aggregate_group population n_patients = Inr curves"
    by (rule aggregate_group_ok)
next
  show "calculate_results population \<noteq> Inl KeyError"
  proof
    assume "calculate_results population = Inl KeyError"
    then obtain g where "calculate_results_group population g = Inl KeyError"
      unfolding calculate_results_def using comprehension_error by blast
    then show False using calculate_results_group_cases [OF assms, of g] by auto
  qed
qed

theorem intensity_keys_are_buckets_witness:
  "pool_drawn example_patient_after_day \<and>
   calculate_intensity_minutes example_patient_after_day = [(43 / 10, 54)] \<and>
   43 / 10 \<in> round1 ` set intensities \<and>
   (\<exists>curves. aggregate_group [example_patient_after_day] 1 = Inr curves)"
proof -
  have d: "\<forall>p \<in> set [example_patient_after_day]. pool_drawn p"
    using example_pool_drawn by simp
  have k: "43 / 10 \<in> fst ` set (calculate_intensity_minutes example_patient_after_day)"
    unfolding example_intensity_minutes by simp
  have one: "(0::nat) < 1" by simp
  show ?thesis
    using intensity_keys_are_buckets [OF d, of 1] k one example_pool_drawn example_intensity_minutes
    by auto
qed

section \<open>A simulated year leaves pool-drawn attacks\<close>

lemma pre_generate_pool_generated: "pool_generated (snd (pre_generate_attack_pool r (used, p)))"
proof -
  let ?q = "snd (pre_generate_attack_pool r (used, p))"
  have m: "max_attacks ?q = max_attacks p"
    by (rule max_attacks_cong) (simp_all add: pre_generate_fields)
  have "\<forall>a \<in> set (attack_pool ?q). \<exists>d. a = generate_attack (is_chronic ?q) (is_treated ?q) d"
    unfolding pool_set pre_generate_fields by blast
  then show ?thesis unfolding pool_generated_def using m by (simp add: pre_generate_fields)
qed

lemma pool_drawn_pre_generate:
  "pool_drawn p \<Longrightarrow> pool_drawn (snd (pre_generate_attack_pool r (used, p)))"
  by (simp add: pool_drawn_def pre_generate_fields)

lemma pool_drawn_append:
  assumes "pool_generated p" and "pool_drawn p" and "pool_index p < length (attack_pool p)"
  shows "pool_generated (p\<lparr>attacks := attacks p @ [attack_pool p ! pool_index p],
                            pool_index := pool_index p + 1\<rparr>) \<and>
         pool_drawn (p\<lparr>attacks := attacks p @ [attack_pool p ! pool_index p],
                            pool_index := pool_index p + 1\<rparr>)"
proof -
  have "attack_pool p ! pool_index p \<in> set (attack_pool p)" using assms(3) by simp
  then have "\<exists>d. attack_pool p ! pool_index p = generate_attack (is_chronic p) (is_treated p) d"
    using assms(1) unfolding pool_generated_def by blast
  then show ?thesis
    using assms(1,2) by (auto simp: pool_generated_def pool_drawn_def max_attacks_def)
qed

lemma day_loop_pool_drawn:
  "pool_generated p \<Longrightarrow> pool_drawn p \<Longrightarrow> day_loop r n (used, p, k) = Inr (used', p', k') \<Longrightarrow>
   pool_generated p' \<and> pool_drawn p'"
proof (induction n arbitrary: used p k)
  case 0
  then show ?case by simp
next
  case (Suc n)
  define s where "s = (if length (attack_pool p) \<le> pool_index p
                         then pre_generate_attack_pool r (used, p) else (used, p))"
  define u1 where "u1 = fst s"
  define p1 where "p1 = snd s"
  have s: "s = (u1, p1)" by (simp add: u1_def p1_def)
  have g1: "pool_generated p1"
    using Suc.prems(1) by (simp add: p1_def s_def pre_generate_pool_generated)
  have d1: "pool_drawn p1"
    using Suc.prems(2) by (simp add: p1_def s_def pool_drawn_pre_generate)
  define p2 where "p2 = p1\<lparr>attacks := attacks p1 @ [attack_pool p1 ! pool_index p1],
                    pool_index := pool_index p1 + 1\<rparr>"
  have step: "day_loop r (Suc n) (used, p, k) =
      (if pool_index p1 < length (attack_pool p1) then day_loop r n (u1, p2, k + 1)
       else Inl IndexError)"
    by (simp add: s_def [symmetric] s p2_def)
  show ?case
  proof (cases "pool_index p1 < length (attack_pool p1)")
    case True
    have "pool_generated p2 \<and> pool_drawn p2"
      unfolding p2_def using g1 d1 True by (rule pool_drawn_append)
    moreover have "day_loop r n (u1, p2, k + 1) = Inr (used', p', k')"
      using Suc.prems(3) True unfolding step by simp
    ultimately show ?thesis using Suc.IH by blast
  next
    case False
    then show ?thesis using Suc.prems(3) unfolding step by simp
  qed
qed

lemma days_loop_pool_drawn:
  "pool_generated p \<Longrightarrow> pool_drawn p \<Longrightarrow>
   days_loop r dd n (used, day, p, tot) = Inr (used', day', p', tot') \<Longrightarrow>
   pool_generated p' \<and> pool_drawn p'"
proof (induction n arbitrary: used day p tot)
  case 0
  then show ?case by simp
next
  case (Suc n)
  show ?case
  proof (cases "generate_day_attacks r (dd day) (used, p)")
    case (Inl e)
    then show ?thesis using Suc.prems(3) by simp
  next
    case (Inr res)
    obtain u1 p1 c where res: "res = (u1, p1, c)" by (cases res)
    have "day_loop r (generate_attacks_per_day (dd day)) (used, p, 0) = Inr (u1, p1, c)"
      using Inr res by (simp add: generate_day_attacks_def)
    then have a: "pool_generated p1 \<and> pool_drawn p1"
      using day_loop_pool_drawn Suc.prems(1,2) by blast
    have "days_loop r dd n (u1, day + 1, p1, tot + c) = Inr (used', day', p', tot')"
      using Suc.prems(3) Inr res by simp
    then show ?thesis using Suc.IH a by blast
  qed
qed

lemma bouts_loop_pool_drawn:
  "pool_generated p \<Longrightarrow> pool_drawn p \<Longrightarrow>
   bouts_loop r dd ds (used, day, p, tot) = Inr (used', day', p', tot') \<Longrightarrow>
   pool_generated p' \<and> pool_drawn p'"
proof (induction ds arbitrary: used day p tot)
  case Nil
  then show ?case by simp
next
  case (Cons d ds)
  show ?case
  proof (cases "days_loop r dd d (used, day, p, tot)")
    case (Inl e)
    then show ?thesis using Cons.prems(3) by simp
  next
    case (Inr res)
    obtain u1 d1 p1 t1 where res: "res = (u1, d1, p1, t1)" by (cases res)
    have a: "pool_generated p1 \<and> pool_drawn p1"
      using days_loop_pool_drawn Cons.prems(1,2) Inr res by blast
    have "bouts_loop r dd ds (u1, d1, p1, t1) = Inr (used', day', p', tot')"
      using Cons.prems(3) Inr res by simp
    then show ?thesis using Cons.IH a by blast
  qed
qed

lemma generate_year_of_attacks_pool_drawn:
  assumes "pool_generated p"
  shows "\<exists>used' day' p'. generate_year_of_attacks r dd (used, day, p) =
             Inr (used', day', p', length (attacks p')) \<and>
           pool_generated p' \<and> pool_drawn p'"
proof -
  have len: "length (attack_pool p) = max_attacks p"
    using assms by (simp add: pool_generated_def)
  obtain used' day' p' where y: "generate_year_of_attacks r dd (used, day, p) =
             Inr (used', day', p', length (attacks p'))"
    using generate_year_of_attacks_ok [OF len, of r dd used day] by blast
  define q where "q = p\<lparr>attacks := []\<rparr>"
  have gq: "pool_generated q" using assms by (simp add: q_def pool_generated_def max_attacks_def)
  have dq: "pool_drawn q" by (simp add: q_def pool_drawn_def)
  have unf: "generate_year_of_attacks r dd (used, day, p) =
      (if is_chronic q
       then days_loop r dd (min 365 (active_days q)) (used, day, q, 0)
       else bouts_loop r dd (bout_durations q) (used, day, q, 0))"
    by (simp add: generate_year_of_attacks_def q_def Let_def)
  have "pool_generated p' \<and> pool_drawn p'"
  proof (cases "is_chronic q")
    case True
    then have "days_loop r dd (min 365 (active_days q)) (used, day, q, 0) =
        Inr (used', day', p', length (attacks p'))"
      using y unf by simp
    then show ?thesis using days_loop_pool_drawn gq dq by blast
  next
    case False
    then have "bouts_loop r dd (bout_durations q) (used, day, q, 0) =
        Inr (used', day', p', length (attacks p'))"
      using y unf by simp
    then show ?thesis using bouts_loop_pool_drawn gq dq by blast
  qed
  then show ?thesis using y by blast
qed

section \<open>Simulating and aggregating a group\<close>

lemma add_patient_ok:
  assumes "pool_drawn p" and "fst ` set ml = round1 ` set intensities"
  shows "\<exists>tot' ml'. add_patient (tot, ml) p = Inr (tot', ml') \<and>
           fst ` set ml' = round1 ` set intensities"
  using fold_add_patient_ok [of "[p]" ml tot] assms by (auto split: sum.splits)

lemma simulate_and_add_ok:
  assumes "pool_generated p" and "fst ` set ml = round1 ` set intensities"
  shows "\<exists>used' day' tot' ml'. simulate_and_add r dd (used, day, tot, ml) p =
             Inr (used', day', tot', ml') \<and> fst ` set ml' = round1 ` set intensities"
proof -
  obtain used' day' p' where y: "generate_year_of_attacks r dd (used, day, p) =
             Inr (used', day', p', length (attacks p'))" "pool_drawn p'"
    using generate_year_of_attacks_pool_drawn [OF assms(1), of r dd used day] by blast
  obtain tot' ml' where a: "add_patient (tot, ml) p' = Inr (tot', ml')"
      "fst ` set ml' = round1 ` set intensities"
    using add_patient_ok [OF y(2) assms(2), of tot] by blast
  show ?thesis by (simp add: simulate_and_add_def y(1) a)
qed

lemma fold_simulate_and_add_ok:
  "(\<forall>p \<in> set ps. pool_generated p) \<Longrightarrow> fst ` set ml = round1 ` set intensities \<Longrightarrow>
   \<exists>used' day' tot' ml'. fold_err (simulate_and_add r dd) ps (used, day, tot, ml) =
             Inr (used', day', tot', ml') \<and> fst ` set ml' = round1 ` set intensities"
proof (induction ps arbitrary: used day tot ml)
  case Nil
  then show ?case by simp
next
  case (Cons p ps)
  have gp: "pool_generated p" using Cons.prems(1) by simp
  obtain u1 d1 t1 ml1 where s: "simulate_and_add r dd (used, day, tot, ml) p = Inr (u1, d1, t1, ml1)"
      "fst ` set ml1 = round1 ` set intensities"
    using simulate_and_add_ok [OF gp Cons.prems(2), of r dd used day tot] by blast
  have "\<forall>p \<in> set ps. pool_generated p" using Cons.prems(1) by simp
  from Cons.IH [OF this s(2), of u1 d1 t1] show ?case using s(1) by simp
qed

lemma calculate_group_data_group_cases:
  assumes "\<forall>p \<in> set population. pool_generated p"
  shows "(\<exists>y. calculate_group_data_group r dd population (used, day, gd) (name, condition, n) = Inr y) \<or>
         (n = 0 \<and> calculate_group_data_group r dd population (used, day, gd) (name, condition, n) =
            Inl ZeroDivisionError)"
proof -
  have "\<forall>p \<in> set (filter condition population). pool_generated p" using assms by simp
  then obtain used' day' tot' ml' where f:
    "fold_err (simulate_and_add r dd) (filter condition population)
        (used, day, fst empty_buckets, snd empty_buckets) = Inr (used', day', tot', ml')"
    "fst ` set ml' = round1 ` set intensities"
    using fold_simulate_and_add_ok [OF _ initial_bucket_keys] by blast
  show ?thesis
    using group_curves_of_cases [OF f(2), of tot' n] f(1)
    by (auto simp: calculate_group_data_group_def Let_def)
qed

lemma fold_calculate_group_data_group:
  assumes "\<forall>p \<in> set population. pool_generated p"
  shows "(\<exists>y. fold_err (calculate_group_data_group r dd population) gs (used, day, gd) = Inr y) \<or>
     ((\<exists>g \<in> set gs. snd (snd g) = 0) \<and>
      fold_err (calculate_group_data_group r dd population) gs (used, day, gd) = Inl ZeroDivisionError)"
proof (induction gs arbitrary: used day gd)
  case Nil
  then show ?case by simp
next
  case (Cons g gs)
  obtain name condition n where g: "g = (name, condition, n)" by (cases g)
  from calculate_group_data_group_cases [OF assms, of r dd used day gd name condition n]
  show ?case
  proof
    assume "\<exists>y. calculate_group_data_group r dd population (used, day, gd) (name, condition, n) = Inr y"
    then obtain u1 d1 gd1 where
      "calculate_group_data_group r dd population (used, day, gd) (name, condition, n) = Inr (u1, d1, gd1)"
      by (metis prod_cases3)
    then show ?thesis using Cons.IH [of u1 d1 gd1] unfolding g by auto
  next
    assume "n = 0 \<and> calculate_group_data_group r dd population (used, day, gd) (name, condition, n) =
            Inl ZeroDivisionError"
    then have n: "n = 0" and e: "calculate_group_data_group r dd population (used, day, gd) g =
            Inl ZeroDivisionError" unfolding g by blast+
    have "snd (snd g) = 0" using n unfolding g by simp
    then show ?thesis using e by simp
  qed
qed

lemma calculate_group_data_cases:
  assumes "\<forall>p \<in> set population. pool_generated p"
  shows "(\<exists>group_data. calculate_group_data r dd population groups_simulated = Inr group_data) \<or>
     ((\<exists>g \<in> set groups_simulated. snd (snd g) = 0) \<and>
      calculate_group_data r dd population groups_simulated = Inl ZeroDivisionError)"
  using fold_calculate_group_data_group [OF assms, of r dd groups_simulated 0 0 "[]"]
  by (auto simp: calculate_group_data_def)

end
